theory Spec2Isabelle
  imports Complex_Main "HOL-Library.Log_Nat" "HOL-Library.Word"
begin

unbundle bit_operations_syntax

section \<open>C floating-point values\<close>

text \<open>
  \<^verbatim>\<open>s1_pmic_set_vaux\<close> and \<^verbatim>\<open>s1_pmic_set_vio\<close> take a \<^verbatim>\<open>float\<close> and compute with
  \<^verbatim>\<open>double\<close> literals, so the argument is promoted to \<^verbatim>\<open>double\<close> (exactly) and every
  comparison, the subtraction and the division are IEEE-754 binary64 operations. A value
  is either a finite rational, an infinity or a NaN; the sign of a zero is not kept, since
  the source only compares, subtracts a non-zero literal, divides by a non-zero literal and
  converts to an integer, none of which can tell \<open>+0\<close> from \<open>-0\<close>.
\<close>

datatype fpval = Fin rat | PInf | NInf | NaN

text \<open>\<open>ilog2 x\<close> is the binary exponent of a positive rational: \<open>2^e \<le> x < 2^(e+1)\<close>.\<close>

definition ilog2 :: "rat \<Rightarrow> int" where
  "ilog2 x = (if 1 \<le> x then bitlen \<lfloor>x\<rfloor> - 1 else - bitlen (\<lceil>1 / x\<rceil> - 1))"

text \<open>Rounding to the nearest integer, ties to the even one.\<close>

definition round_half_even :: "rat \<Rightarrow> int" where
  "round_half_even y =
     (let f = \<lfloor>y\<rfloor>; r = y - of_int f
      in if r < 1 / 2 then f else if 1 / 2 < r then f + 1 else if even f then f else f + 1)"

text \<open>
  The binary64 rounding of an exact result (round to nearest, ties to even): 53 significant
  bits, smallest normal exponent \<open>-1022\<close> (below it the spacing stays \<open>2^-1074\<close>), and
  overflow to an infinity from \<open>2^1024\<close> on.
\<close>

definition round_binary64 :: "rat \<Rightarrow> fpval" where
  "round_binary64 x =
     (if x = 0 then Fin 0
      else let e = max (ilog2 \<bar>x\<bar>) (- 1022);
               q = 2 powi (e - 52);
               r = of_int (round_half_even (x / q)) * q
           in if 2 powi 1024 \<le> \<bar>r\<bar> then (if 0 < x then PInf else NInf) else Fin r)"

text \<open>
  The values a \<^verbatim>\<open>float\<close> argument can hold: binary32 has 24 significant bits, smallest
  normal exponent \<open>-126\<close> and finite values below \<open>2^128\<close>.
\<close>

definition is_binary32 :: "rat \<Rightarrow> bool" where
  "is_binary32 x =
     (x = 0 \<or>
      (\<bar>x\<bar> < 2 powi 128 \<and>
       (let y = x / 2 powi (max (ilog2 \<bar>x\<bar>) (- 126) - 23) in of_int \<lfloor>y\<rfloor> = y)))"

text \<open>The comparisons \<^verbatim>\<open><\<close> and \<^verbatim>\<open>==\<close>; a NaN compares false with everything.\<close>

fun fp_less :: "fpval \<Rightarrow> fpval \<Rightarrow> bool" where
  "fp_less (Fin a) (Fin b) = (a < b)"
| "fp_less (Fin a) PInf = True"
| "fp_less NInf (Fin b) = True"
| "fp_less NInf PInf = True"
| "fp_less _ _ = False"

fun fp_eq :: "fpval \<Rightarrow> fpval \<Rightarrow> bool" where
  "fp_eq (Fin a) (Fin b) = (a = b)"
| "fp_eq PInf PInf = True"
| "fp_eq NInf NInf = True"
| "fp_eq _ _ = False"

text \<open>
  \<^verbatim>\<open>x - c\<close> and \<^verbatim>\<open>x / c\<close> in binary64 for a finite literal \<open>c\<close>, positive in the case of
  the division (the source divides by \<^verbatim>\<open>0.05\<close> and \<^verbatim>\<open>0.025\<close> only).
\<close>

definition double_sub :: "fpval \<Rightarrow> rat \<Rightarrow> fpval" where
  "double_sub x c = (case x of Fin a \<Rightarrow> round_binary64 (a - c) | PInf \<Rightarrow> PInf | NInf \<Rightarrow> NInf | NaN \<Rightarrow> NaN)"

definition double_div :: "fpval \<Rightarrow> rat \<Rightarrow> fpval" where
  "double_div x c = (case x of Fin a \<Rightarrow> round_binary64 (a / c) | PInf \<Rightarrow> PInf | NInf \<Rightarrow> NInf | NaN \<Rightarrow> NaN)"

text \<open>
  The implicit conversion of a \<^verbatim>\<open>double\<close> to \<^verbatim>\<open>uint8_t\<close> discards the fractional part
  (truncation toward zero); it is undefined when the integral part does not fit, and for an
  infinity or a NaN.
\<close>

definition trunc_toward_zero :: "rat \<Rightarrow> int" where
  "trunc_toward_zero x = (if 0 \<le> x then \<lfloor>x\<rfloor> else \<lceil>x\<rceil>)"

definition double_to_uint8 :: "fpval \<Rightarrow> 8 word option" where
  "double_to_uint8 d =
     (case d of
        Fin x \<Rightarrow> (let t = trunc_toward_zero x in if 0 \<le> t \<and> t \<le> 255 then Some (word_of_int t) else None)
      | _ \<Rightarrow> None)"

text \<open>The \<^verbatim>\<open>double\<close> values of the literals of the source.\<close>

definition lit_0_0 :: rat where "lit_0_0 = 0"
definition lit_0_8 :: rat where "lit_0_8 = 3602879701896397 / 4503599627370496"
definition lit_5_5 :: rat where "lit_5_5 = 11 / 2"
definition lit_3_46 :: rat where "lit_3_46 = 3895613677675479 / 1125899906842624"
definition lit_0_05 :: rat where "lit_0_05 = 3602879701896397 / 72057594037927936"
definition lit_0_025 :: rat where "lit_0_025 = 3602879701896397 / 144115188075855872"

text \<open>C's \<^verbatim>\<open>round\<close>, which the specification uses: nearest integer, ties away from zero.\<close>

definition c_round :: "rat \<Rightarrow> int" where
  "c_round x = (if 0 \<le> x then \<lfloor>x + 1 / 2\<rfloor> else \<lceil>x - 1 / 2\<rceil>)"

section \<open>The bus, the hardware and the trace of a call\<close>

text \<open>
  The functions of \<^verbatim>\<open>s1.c\<close> act on the PMIC and the flash only through the nrfx drivers.
  A call is modelled by the list of driver calls it makes, in order (the trace), and the
  hardware by a function that gives, for the history up to and including a transfer, the
  driver's return code and the bytes received. \<^verbatim>\<open>APP_ERROR_CHECK\<close> does not return when
  the code is not \<^verbatim>\<open>NRFX_SUCCESS\<close>: the call ends there with \<open>APP_ERROR\<close>.
\<close>

datatype nrfx_err_t = NRFX_SUCCESS | NRFX_ERROR

datatype s1_error_t = S1_SUCCESS | S1_INVALID_SETTING | S1_FLASH_ERROR | S1_PMIC_ERROR

datatype fault = APP_ERROR | UNDEFINED_CONVERSION

record spim_config =
  mosi_pin :: nat
  miso_pin :: nat
  sck_pin :: nat
  ss_pin :: nat

datatype event =
    TWIM_TX "8 word" "8 word list"
  | TWIM_TXRX "8 word" "8 word list" nat
  | SPIM_INIT spim_config
  | SPIM_XFER "8 word list" nat
  | DELAY_US nat
  | LOG string "8 word list"

type_synonym hardware = "event list \<Rightarrow> nrfx_err_t \<times> (nat \<Rightarrow> 8 word)"

type_synonym 'a prog = "event list \<Rightarrow> (fault + 'a) \<times> event list"

definition return :: "'a \<Rightarrow> 'a prog" where
  "return x tr = (Inr x, tr)"

definition fail :: "fault \<Rightarrow> 'a prog" where
  "fail f tr = (Inl f, tr)"

definition bind :: "'a prog \<Rightarrow> ('a \<Rightarrow> 'b prog) \<Rightarrow> 'b prog" where
  "bind m k tr = (case m tr of (Inl f, tr') \<Rightarrow> (Inl f, tr') | (Inr x, tr') \<Rightarrow> k x tr')"

definition emit :: "event \<Rightarrow> unit prog" where
  "emit e tr = (Inr (), tr @ [e])"

text \<open>A transfer is recorded and answered by the hardware.\<close>

definition xfer :: "hardware \<Rightarrow> event \<Rightarrow> (nrfx_err_t \<times> (nat \<Rightarrow> 8 word)) prog" where
  "xfer hw e tr = (Inr (hw (tr @ [e])), tr @ [e])"

definition APP_ERROR_CHECK :: "nrfx_err_t \<Rightarrow> unit prog" where
  "APP_ERROR_CHECK err = (if err = NRFX_SUCCESS then return () else fail APP_ERROR)"

definition PMIC_I2C_ADDRESS :: "8 word" where
  "PMIC_I2C_ADDRESS = 0x48"

definition SPI_SI_PIN :: nat where "SPI_SI_PIN = 8"
definition SPI_SO_PIN :: nat where "SPI_SO_PIN = 11"
definition SPI_CS_PIN :: nat where "SPI_CS_PIN = 12"
definition SPI_CLK_PIN :: nat where "SPI_CLK_PIN = 15"

section \<open>The functions of s1.c\<close>

definition pmic_read_reg :: "hardware \<Rightarrow> 8 word \<Rightarrow> 8 word prog" where
  "pmic_read_reg hw reg =
     bind (xfer hw (TWIM_TXRX PMIC_I2C_ADDRESS [reg] 1)) (\<lambda>(err, rx).
     bind (APP_ERROR_CHECK err) (\<lambda>_.
     return (rx 0)))"

definition pmic_write_reg :: "hardware \<Rightarrow> 8 word \<Rightarrow> 8 word \<Rightarrow> unit prog" where
  "pmic_write_reg hw reg v =
     bind (xfer hw (TWIM_TX 0x48 [reg, v])) (\<lambda>(err, rx).
     APP_ERROR_CHECK err)"

text \<open>
  \<^verbatim>\<open>flash_tx_rx\<close> sends the first \<open>tx_len\<close> bytes at \<open>tx_buffer\<close> and returns the
  \<open>rx_len\<close> bytes received; the return code of \<^verbatim>\<open>nrfx_spim_init\<close> is ignored.
\<close>

definition spi_config :: spim_config where
  "spi_config = \<lparr>mosi_pin = SPI_SO_PIN, miso_pin = SPI_SI_PIN,
                  sck_pin = SPI_CLK_PIN, ss_pin = SPI_CS_PIN\<rparr>"

definition flash_tx_rx :: "hardware \<Rightarrow> 8 word list \<Rightarrow> nat \<Rightarrow> nat \<Rightarrow> 8 word list prog" where
  "flash_tx_rx hw tx_buffer tx_len rx_len =
     bind (emit (SPIM_INIT spi_config)) (\<lambda>_.
     bind (xfer hw (SPIM_XFER (take tx_len tx_buffer) rx_len)) (\<lambda>(err, rx).
     bind (APP_ERROR_CHECK err) (\<lambda>_.
     return (map rx [0..<rx_len]))))"

definition s1_pmic_set_vaux :: "hardware \<Rightarrow> fpval \<Rightarrow> s1_error_t prog" where
  "s1_pmic_set_vaux hw voltage =
     (if fp_less voltage (Fin lit_0_8) \<or> fp_less (Fin lit_5_5) voltage
      then return S1_INVALID_SETTING
      else
        bind (if fp_less (Fin lit_3_46) voltage
              then bind (pmic_read_reg hw 0x39) (\<lambda>m. return (m AND 0x08 \<noteq> 0))
              else return False) (\<lambda>lsw.
        if lsw then return S1_INVALID_SETTING
        else if fp_eq voltage (Fin lit_0_0)
        then bind (pmic_write_reg hw 0x2E 0x0C) (\<lambda>_. return S1_SUCCESS)
        else
          (case double_to_uint8 (double_div (double_sub voltage lit_0_8) lit_0_05) of
             None \<Rightarrow> fail UNDEFINED_CONVERSION
           | Some voltage_setting \<Rightarrow>
               bind (pmic_write_reg hw 0x2D voltage_setting) (\<lambda>_.
               bind (pmic_write_reg hw 0x2E 0x0E) (\<lambda>_.
               return S1_SUCCESS)))))"

definition s1_pmic_set_vio :: "hardware \<Rightarrow> fpval \<Rightarrow> s1_error_t prog" where
  "s1_pmic_set_vio hw voltage =
     (if fp_less voltage (Fin lit_0_8) \<or> fp_less (Fin lit_3_46) voltage
      then return S1_INVALID_SETTING
      else if fp_eq voltage (Fin lit_0_0)
      then bind (pmic_write_reg hw 0x39 0x0C) (\<lambda>_. return S1_SUCCESS)
      else
        (case double_to_uint8 (double_div (double_sub voltage lit_0_8) lit_0_025) of
           None \<Rightarrow> fail UNDEFINED_CONVERSION
         | Some voltage_setting \<Rightarrow>
             bind (pmic_write_reg hw 0x38 voltage_setting) (\<lambda>_.
             bind (pmic_write_reg hw 0x39 0x0E) (\<lambda>_.
             return S1_SUCCESS))))"

definition s1_pimc_fpga_vcore :: "hardware \<Rightarrow> bool \<Rightarrow> unit prog" where
  "s1_pimc_fpga_vcore hw enable =
     bind (pmic_write_reg hw 0x2B 0x08) (\<lambda>_.
     if enable then pmic_write_reg hw 0x2C 0x7E
     else
       bind (pmic_write_reg hw 0x39 0x0C) (\<lambda>_.
       pmic_write_reg hw 0x2C 0x7C))"

definition s1_flash_wakeup :: "hardware \<Rightarrow> s1_error_t prog" where
  "s1_flash_wakeup hw =
     (let wake_seq = [0xAB, 0, 0, 0]; reset_seq = [0x66, 0x99, 0]; cap_id_reg = [0x9F] in
      bind (flash_tx_rx hw wake_seq 4 0) (\<lambda>_.
      bind (emit (DELAY_US 3)) (\<lambda>_.
      bind (flash_tx_rx hw reset_seq 1 0) (\<lambda>_.
      bind (flash_tx_rx hw (drop 1 reset_seq) 1 0) (\<lambda>_.
      bind (emit (DELAY_US 30)) (\<lambda>_.
      bind (flash_tx_rx hw cap_id_reg 1 4) (\<lambda>cap_id_res.
      bind (emit (LOG ''Flash capacity = 0x%x'' [cap_id_res ! 3])) (\<lambda>_.
      if cap_id_res ! 3 \<noteq> 0x16 then return S1_FLASH_ERROR
      else return S1_SUCCESS))))))))"

definition s1_flash_erase_all :: "hardware \<Rightarrow> unit prog" where
  "s1_flash_erase_all hw =
     (let erase_seq = [0x06, 0x60] in
      bind (flash_tx_rx hw erase_seq 1 0) (\<lambda>_.
      bind (flash_tx_rx hw (drop 1 erase_seq) 1 0) (\<lambda>_.
      return ())))"

definition s1_flash_is_busy :: "hardware \<Rightarrow> bool prog" where
  "s1_flash_is_busy hw =
     (let status_reg = [0x05] in
      bind (flash_tx_rx hw status_reg 1 2) (\<lambda>status_res.
      bind (emit (LOG ''Status: 0x%x'' [status_res ! 1])) (\<lambda>_.
      if \<not> (status_res ! 1 AND 0x01 \<noteq> 0)
      then bind (emit (LOG ''Erase Done!'' [])) (\<lambda>_. return False)
      else return True)))"

section \<open>Hardware behaviours\<close>

text \<open>The SPI transfers among the driver calls of a trace.\<close>

fun is_spim_xfer :: "event \<Rightarrow> bool" where
  "is_spim_xfer (SPIM_XFER tx n) = True"
| "is_spim_xfer _ = False"

text \<open>A bus on which every transfer returns \<^verbatim>\<open>NRFX_SUCCESS\<close>.\<close>

definition bus_ok :: "hardware \<Rightarrow> bool" where
  "bus_ok hw = (\<forall>h. fst (hw h) = NRFX_SUCCESS)"

text \<open>
  A concrete hardware: every transfer succeeds and receives the bytes \<open>bs\<close> (zeros after
  them).
\<close>

definition hw_reply :: "8 word list \<Rightarrow> hardware" where
  "hw_reply bs h = (NRFX_SUCCESS, (\<lambda>i. if i < length bs then bs ! i else 0))"

text \<open>A concrete hardware on which every transfer fails.\<close>

definition hw_dead :: hardware where
  "hw_dead h = (NRFX_ERROR, (\<lambda>i. 0))"

section \<open>The driver calls of each function\<close>

lemma bus_ok_hw_reply: "bus_ok (hw_reply bs)"
  by (simp add: bus_ok_def hw_reply_def)

lemma pmic_write_reg_eq:
  "pmic_write_reg hw reg v tr =
     ((if fst (hw (tr @ [TWIM_TX 0x48 [reg, v]])) = NRFX_SUCCESS then Inr () else Inl APP_ERROR),
      tr @ [TWIM_TX 0x48 [reg, v]])"
  by (simp add: pmic_write_reg_def bind_def xfer_def APP_ERROR_CHECK_def return_def fail_def
      split: prod.splits)

lemma pmic_read_reg_eq:
  "pmic_read_reg hw reg tr =
     ((if fst (hw (tr @ [TWIM_TXRX 0x48 [reg] 1])) = NRFX_SUCCESS
       then Inr (snd (hw (tr @ [TWIM_TXRX 0x48 [reg] 1])) 0) else Inl APP_ERROR),
      tr @ [TWIM_TXRX 0x48 [reg] 1])"
  by (simp add: pmic_read_reg_def bind_def xfer_def APP_ERROR_CHECK_def return_def fail_def
      PMIC_I2C_ADDRESS_def split: prod.splits)

lemma flash_tx_rx_eq:
  "flash_tx_rx hw tx_buffer tx_len rx_len tr =
     ((if fst (hw (tr @ [SPIM_INIT spi_config, SPIM_XFER (take tx_len tx_buffer) rx_len])) = NRFX_SUCCESS
       then Inr (map (snd (hw (tr @ [SPIM_INIT spi_config, SPIM_XFER (take tx_len tx_buffer) rx_len]))) [0..<rx_len])
       else Inl APP_ERROR),
      tr @ [SPIM_INIT spi_config, SPIM_XFER (take tx_len tx_buffer) rx_len])"
  by (simp add: flash_tx_rx_def bind_def xfer_def emit_def APP_ERROR_CHECK_def return_def fail_def
      split: prod.splits)

lemma flash_tx_rx_ok:
  "bus_ok hw \<Longrightarrow> flash_tx_rx hw tx_buffer tx_len rx_len tr =
     (Inr (map (snd (hw (tr @ [SPIM_INIT spi_config, SPIM_XFER (take tx_len tx_buffer) rx_len]))) [0..<rx_len]),
      tr @ [SPIM_INIT spi_config, SPIM_XFER (take tx_len tx_buffer) rx_len])"
  by (simp add: flash_tx_rx_eq bus_ok_def)

lemma vcore_disable_cases:
  "snd (s1_pimc_fpga_vcore hw False tr) = tr @ [TWIM_TX 0x48 [0x2B, 0x08]] \<or>
   snd (s1_pimc_fpga_vcore hw False tr) = tr @ [TWIM_TX 0x48 [0x2B, 0x08], TWIM_TX 0x48 [0x39, 0x0C]] \<or>
   snd (s1_pimc_fpga_vcore hw False tr) = tr @ [TWIM_TX 0x48 [0x2B, 0x08], TWIM_TX 0x48 [0x39, 0x0C], TWIM_TX 0x48 [0x2C, 0x7C]]"
  by (simp add: s1_pimc_fpga_vcore_def bind_def pmic_write_reg_eq)

lemma vcore_enable_cases:
  "snd (s1_pimc_fpga_vcore hw True tr) = tr @ [TWIM_TX 0x48 [0x2B, 0x08]] \<or>
   snd (s1_pimc_fpga_vcore hw True tr) = tr @ [TWIM_TX 0x48 [0x2B, 0x08], TWIM_TX 0x48 [0x2C, 0x7E]]"
  by (simp add: s1_pimc_fpga_vcore_def bind_def pmic_write_reg_eq)

lemma and_1_bit0: "(w AND 1 \<noteq> 0) = bit w 0" for w :: "8 word"
  by (simp add: and_one_eq bit_0 mod_2_eq_odd)

lemma and_8_bit3: "(w AND 8 \<noteq> 0) = bit w 3" for w :: "8 word"
proof -
  have "(8 :: 8 word) = 2 ^ 3" by simp
  then have "w AND 8 = w AND 2 ^ 3" by simp
  then show ?thesis
    using and_exp_eq_0_iff_not_bit [of w 3] by simp
qed

lemma map_upt_4_nth_3: "map f [0..<4] ! 3 = f 3" for f :: "nat \<Rightarrow> 8 word"
  by simp

lemma map_upt_2_nth_1: "map f [0..<2] ! 1 = f 1" for f :: "nat \<Rightarrow> 8 word"
  by simp

lemma flash_wakeup_eq:
  assumes "bus_ok hw"
  shows "s1_flash_wakeup hw tr =
     (Inr (if snd (hw (tr @ [SPIM_INIT spi_config, SPIM_XFER [0xAB, 0, 0, 0] 0, DELAY_US 3,
                        SPIM_INIT spi_config, SPIM_XFER [0x66] 0,
                        SPIM_INIT spi_config, SPIM_XFER [0x99] 0, DELAY_US 30,
                        SPIM_INIT spi_config, SPIM_XFER [0x9F] 4])) 3 = 0x16 then S1_SUCCESS else S1_FLASH_ERROR),
      tr @ [SPIM_INIT spi_config, SPIM_XFER [0xAB, 0, 0, 0] 0, DELAY_US 3,
            SPIM_INIT spi_config, SPIM_XFER [0x66] 0,
            SPIM_INIT spi_config, SPIM_XFER [0x99] 0, DELAY_US 30,
            SPIM_INIT spi_config, SPIM_XFER [0x9F] 4,
            LOG ''Flash capacity = 0x%x'' [snd (hw (tr @ [SPIM_INIT spi_config, SPIM_XFER [0xAB, 0, 0, 0] 0, DELAY_US 3,
                        SPIM_INIT spi_config, SPIM_XFER [0x66] 0,
                        SPIM_INIT spi_config, SPIM_XFER [0x99] 0, DELAY_US 30,
                        SPIM_INIT spi_config, SPIM_XFER [0x9F] 4])) 3]])"
  by (simp add: s1_flash_wakeup_def bind_def flash_tx_rx_ok [OF assms] emit_def return_def
      map_upt_4_nth_3 del: upt_Suc)

lemma flash_is_busy_eq:
  assumes "fst (hw (tr @ [SPIM_INIT spi_config, SPIM_XFER [0x05] 2])) = NRFX_SUCCESS"
  shows "s1_flash_is_busy hw tr =
     (Inr (bit (snd (hw (tr @ [SPIM_INIT spi_config, SPIM_XFER [0x05] 2])) 1) 0),
      tr @ [SPIM_INIT spi_config, SPIM_XFER [0x05] 2,
            LOG ''Status: 0x%x'' [snd (hw (tr @ [SPIM_INIT spi_config, SPIM_XFER [0x05] 2])) 1]] @
           (if bit (snd (hw (tr @ [SPIM_INIT spi_config, SPIM_XFER [0x05] 2])) 1) 0 then []
            else [LOG ''Erase Done!'' []]))"
  using assms
  by (simp add: s1_flash_is_busy_def bind_def flash_tx_rx_eq emit_def return_def
      map_upt_2_nth_1 and_1_bit0 del: upt_Suc)

section \<open>Binary64 rounding\<close>

text \<open>The exponent found by \<open>ilog2\<close> is the binary exponent.\<close>

lemma powi_nat: "0 \<le> k \<Longrightarrow> (2::rat) powi k = 2 ^ nat k"
  by (simp add: power_int_def)

lemma powi_neg: "k \<le> 0 \<Longrightarrow> (2::rat) powi k = 1 / 2 ^ nat (- k)"
  by (cases "k = 0") (simp_all add: power_int_def field_simps)

lemma ilog2_bounds:
  assumes "0 < x"
  shows "2 powi (ilog2 x) \<le> x \<and> x < 2 powi (ilog2 x + 1)"
proof (cases "1 \<le> x")
  case True
  define n where "n = \<lfloor>x\<rfloor>"
  have n1: "1 \<le> n" using True by (simp add: n_def le_floor_iff)
  then have n0: "0 < n" by simp
  from bitlen_bounds [OF n0] have lo: "2 ^ nat (bitlen n - 1) \<le> n" and hi: "n < 2 ^ nat (bitlen n)"
    by simp_all
  have b1: "1 \<le> bitlen n" using n0 by (simp add: bitlen_alt_def)
  have il: "ilog2 x = bitlen n - 1" using True by (simp add: ilog2_def n_def)
  have "(2::rat) powi (bitlen n - 1) = of_int (2 ^ nat (bitlen n - 1))"
    using b1 by (simp add: powi_nat)
  also have "\<dots> \<le> of_int n" using lo by (simp only: of_int_le_iff)
  also have "\<dots> \<le> x" by (simp add: n_def)
  finally have 1: "2 powi (ilog2 x) \<le> x" by (simp add: il)
  have "x < of_int (n + 1)" unfolding n_def by linarith
  also have "\<dots> \<le> of_int (2 ^ nat (bitlen n))" using hi by (simp only: of_int_le_iff)
  also have "\<dots> = (2::rat) powi (bitlen n)" using b1 by (simp add: powi_nat)
  finally have 2: "x < 2 powi (ilog2 x + 1)" by (simp add: il)
  from 1 2 show ?thesis by simp
next
  case False
  then have x1: "x < 1" by simp
  define y where "y = 1 / x"
  have y1: "1 < y" using assms x1 by (simp add: y_def)
  define m where "m = \<lceil>y\<rceil> - 1"
  have my: "of_int m < y" "y \<le> of_int m + 1"
    unfolding m_def by linarith+
  have "1 < \<lceil>y\<rceil>" using y1 by (simp add: less_ceiling_iff)
  then have m1: "1 \<le> m" by (simp add: m_def)
  then have m0: "0 < m" by simp
  from bitlen_bounds [OF m0] have lo: "2 ^ nat (bitlen m - 1) \<le> m" and hi: "m < 2 ^ nat (bitlen m)"
    by simp_all
  have b1: "1 \<le> bitlen m" using m0 by (simp add: bitlen_alt_def)
  have il: "ilog2 x = - bitlen m" using False by (simp add: ilog2_def m_def y_def)
  have "y \<le> of_int (m + 1)" using my(2) by simp
  also have "\<dots> \<le> of_int (2 ^ nat (bitlen m))" using hi by (simp only: of_int_le_iff)
  finally have yle: "y \<le> 2 ^ nat (bitlen m)" by simp
  have "(2::rat) powi (- bitlen m) = 1 / 2 ^ nat (bitlen m)"
    using b1 by (simp add: powi_neg)
  also have "\<dots> \<le> 1 / y" using yle y1 by (simp add: frac_le)
  also have "\<dots> = x" by (simp add: y_def)
  finally have 1: "2 powi (ilog2 x) \<le> x" by (simp add: il)
  have "(2::rat) ^ nat (bitlen m - 1) = of_int (2 ^ nat (bitlen m - 1))" by simp
  also have "\<dots> \<le> of_int m" using lo by (simp only: of_int_le_iff)
  also have "\<dots> < y" by (rule my(1))
  finally have ylt: "(2::rat) ^ nat (bitlen m - 1) < y" .
  have "x = 1 / y" by (simp add: y_def)
  also have "\<dots> < 1 / 2 ^ nat (bitlen m - 1)" using ylt by (simp add: frac_less2)
  also have "\<dots> = (2::rat) powi (- bitlen m + 1)"
    using b1 powi_neg [of "- bitlen m + 1"] by (simp add: algebra_simps)
  finally have 2: "x < 2 powi (ilog2 x + 1)" by (simp add: il)
  from 1 2 show ?thesis by simp
qed

lemma ilog2_unique:
  assumes "2 powi k \<le> x" and "x < 2 powi (k + 1)"
  shows "ilog2 x = k"
proof -
  have "(0::rat) < 2 powi k" by simp
  from this assms(1) have x0: "0 < x" by (rule less_le_trans)
  from ilog2_bounds [OF x0] have lo: "2 powi (ilog2 x) \<le> x" and hi: "x < 2 powi (ilog2 x + 1)"
    by simp_all
  have "\<not> k + 1 \<le> ilog2 x"
  proof
    assume "k + 1 \<le> ilog2 x"
    then have "(2::rat) powi (k + 1) \<le> 2 powi (ilog2 x)" by (intro power_int_increasing) simp_all
    with lo assms(2) show False by simp
  qed
  moreover have "\<not> ilog2 x + 1 \<le> k"
  proof
    assume "ilog2 x + 1 \<le> k"
    then have "(2::rat) powi (ilog2 x + 1) \<le> 2 powi k" by (intro power_int_increasing) simp_all
    with hi assms(1) show False by simp
  qed
  ultimately show ?thesis by simp
qed

lemma ilog2_le:
  assumes "0 < x" and "x < 2 powi (k + 1)"
  shows "ilog2 x \<le> k"
proof (rule ccontr)
  assume "\<not> ilog2 x \<le> k"
  then have "k + 1 \<le> ilog2 x" by simp
  then have "(2::rat) powi (k + 1) \<le> 2 powi (ilog2 x)" by (intro power_int_increasing) simp_all
  with ilog2_bounds [OF assms(1)] assms(2) show False by simp
qed

text \<open>
  Rounding moves a value by at most half a unit in the last place, and a value within the
  normal range is rounded on the grid of its own exponent.
\<close>

lemma round_half_even_error: "\<bar>of_int (round_half_even y) - y\<bar> \<le> 1 / 2"
proof -
  have "of_int \<lfloor>y\<rfloor> \<le> y" "y < of_int \<lfloor>y\<rfloor> + 1" by linarith+
  then show ?thesis
    by (auto simp: round_half_even_def Let_def)
qed

lemma round_half_even_nonneg: "0 \<le> y \<Longrightarrow> 0 \<le> round_half_even y"
  by (auto simp: round_half_even_def Let_def)

lemma round_binary64_bounds:
  assumes "0 \<le> x" and "x < 2 powi (k + 1)" and "- 1022 \<le> k" and "k \<le> 1022"
  shows "\<exists>r. round_binary64 x = Fin r \<and> 0 \<le> r \<and> \<bar>r - x\<bar> \<le> 2 powi (k - 53)"
proof (cases "x = 0")
  case True
  then show ?thesis by (simp add: round_binary64_def)
next
  case False
  with assms(1) have x0: "0 < x" by simp
  define e where "e = max (ilog2 \<bar>x\<bar>) (- 1022)"
  define q :: rat where "q = 2 powi (e - 52)"
  define r where "r = of_int (round_half_even (x / q)) * q"
  have q0: "0 < q" by (simp add: q_def)
  have ek: "e \<le> k" using ilog2_le [OF x0 assms(2)] assms(3) x0 by (simp add: e_def)
  have "r - x = (of_int (round_half_even (x / q)) - x / q) * q"
    using q0 by (simp add: r_def field_simps)
  then have "\<bar>r - x\<bar> = \<bar>of_int (round_half_even (x / q)) - x / q\<bar> * q"
    using q0 by (simp add: abs_mult)
  also have "\<dots> \<le> 1 / 2 * q"
    using round_half_even_error [of "x / q"] q0 by (intro mult_right_mono) simp_all
  also have "\<dots> = 2 powi (e - 53)"
    by (simp add: q_def power_int_diff)
  also have "\<dots> \<le> 2 powi (k - 53)"
    using ek by (intro power_int_increasing) simp_all
  finally have err: "\<bar>r - x\<bar> \<le> 2 powi (k - 53)" .
  have r0: "0 \<le> r"
    using round_half_even_nonneg [of "x / q"] x0 q0 by (simp add: r_def)
  have "(2::rat) powi (k - 53) \<le> 2 powi (k + 1)" by (intro power_int_increasing) simp_all
  with err assms(2) have "r < 2 powi (k + 1) + 2 powi (k + 1)" by linarith
  also have "\<dots> = 2 powi (k + 2)" by (simp add: power_int_add)
  also have "\<dots> \<le> 2 powi 1024" using assms(4) by (intro power_int_increasing) simp_all
  finally have "\<not> 2 powi 1024 \<le> \<bar>r\<bar>" using r0 by simp
  then have "round_binary64 x = Fin r"
    using False unfolding round_binary64_def Let_def e_def [symmetric] q_def [symmetric] r_def [symmetric]
    by simp
  with r0 err show ?thesis by blast
qed

lemma round_binary64_eval:
  assumes "2 powi e \<le> \<bar>x\<bar>" and "\<bar>x\<bar> < 2 powi (e + 1)" and "- 1022 \<le> e" and "e \<le> 1022"
  shows "round_binary64 x = Fin (of_int (round_half_even (x / 2 powi (e - 52))) * 2 powi (e - 52))"
proof -
  define q :: rat where "q = 2 powi (e - 52)"
  define r where "r = of_int (round_half_even (x / q)) * q"
  have q0: "0 < q" by (simp add: q_def)
  have "(0::rat) < 2 powi e" by simp
  from this assms(1) have "0 < \<bar>x\<bar>" by (rule less_le_trans)
  then have x0: "x \<noteq> 0" by simp
  have m: "max (ilog2 \<bar>x\<bar>) (- 1022) = e"
    using ilog2_unique [OF assms(1,2)] assms(3) by simp
  have "r - x = (of_int (round_half_even (x / q)) - x / q) * q"
    using q0 by (simp add: r_def field_simps)
  then have "\<bar>r - x\<bar> = \<bar>of_int (round_half_even (x / q)) - x / q\<bar> * q"
    using q0 by (simp add: abs_mult)
  also have "\<dots> \<le> 1 / 2 * q"
    using round_half_even_error [of "x / q"] q0 by (intro mult_right_mono) simp_all
  also have "\<dots> = 2 powi (e - 53)"
    by (simp add: q_def power_int_diff)
  also have "\<dots> \<le> 2 powi (e + 1)"
    by (intro power_int_increasing) simp_all
  finally have "\<bar>r\<bar> < 2 powi (e + 1) + 2 powi (e + 1)"
    using assms(2) by linarith
  also have "\<dots> = 2 powi (e + 2)" by (simp add: power_int_add)
  also have "\<dots> \<le> 2 powi 1024" using assms(4) by (intro power_int_increasing) simp_all
  finally have "\<not> 2 powi 1024 \<le> \<bar>r\<bar>" by simp
  then show ?thesis
    using x0 unfolding round_binary64_def Let_def m q_def [symmetric] r_def [symmetric]
    by simp
qed

text \<open>
  A binary32 value lies on the grid of its exponent, so none lies between a decimal bound
  of the specification and the binary64 literal the source compares with.
\<close>

lemma binary32_grid:
  assumes "is_binary32 x" and "2 powi k \<le> x" and "x < 2 powi (k + 1)" and "- 126 \<le> k"
  shows "\<exists>n::int. x = of_int n * 2 powi (k - 23)"
proof -
  have "(0::rat) < 2 powi k" by simp
  from this assms(2) have x0: "0 < x" by (rule less_le_trans)
  have il: "ilog2 \<bar>x\<bar> = k" using ilog2_unique [OF assms(2,3)] x0 by simp
  have m: "max (ilog2 \<bar>x\<bar>) (- 126) = k" using il assms(4) by simp
  from assms(1) have "x = 0 \<or> of_int \<lfloor>x / 2 powi (k - 23)\<rfloor> = x / 2 powi (k - 23)"
    unfolding is_binary32_def Let_def m by blast
  with x0 have h: "of_int \<lfloor>x / 2 powi (k - 23)\<rfloor> = x / 2 powi (k - 23)"
    by blast
  have "x = (x / 2 powi (k - 23)) * 2 powi (k - 23)" by simp
  also have "\<dots> = of_int \<lfloor>x / 2 powi (k - 23)\<rfloor> * 2 powi (k - 23)"
    by (simp only: h)
  finally show ?thesis ..
qed

lemma binary32_ge_0_8:
  assumes "is_binary32 x" and "8 / 10 \<le> x"
  shows "lit_0_8 \<le> x"
proof (rule ccontr)
  assume "\<not> lit_0_8 \<le> x"
  then have lt: "x < lit_0_8" by simp
  have "2 powi (- 1) \<le> x" using assms(2) by simp
  moreover have "x < 2 powi (- 1 + 1)" using lt by (simp add: lit_0_8_def)
  ultimately obtain n :: int where n: "x = of_int n * 2 powi (- 1 - 23)"
    using binary32_grid [OF assms(1), of "- 1"] by auto
  then have x: "x = of_int n / 16777216" by simp
  from assms(2) have "(13421772 :: rat) < of_int n" unfolding x by simp
  then have "13421772 < n" by linarith
  then have "13421773 \<le> n" by simp
  then have "(13421773 :: rat) \<le> of_int n" by linarith
  with lt show False unfolding x lit_0_8_def by simp
qed

lemma binary32_gt_3_46:
  assumes "is_binary32 x" and "lit_3_46 < x"
  shows "346 / 100 < x"
proof (rule ccontr)
  assume "\<not> 346 / 100 < x"
  then have le: "x \<le> 346 / 100" by simp
  have "2 powi 1 \<le> x" using assms(2) by (simp add: lit_3_46_def)
  moreover have "x < 2 powi (1 + 1)" using le by simp
  ultimately obtain n :: int where n: "x = of_int n * 2 powi (1 - 23)"
    using binary32_grid [OF assms(1), of 1] by auto
  then have x: "x = of_int n / 4194304" by simp
  from le have "of_int n < (14512292 :: rat)" unfolding x by simp
  then have "n < 14512292" by linarith
  then have "n \<le> 14512291" by simp
  then have "of_int n \<le> (14512291 :: rat)" by linarith
  with assms(2) show False unfolding x lit_3_46_def by simp
qed

text \<open>
  The setting computed from an accepted voltage: a finite value that fits \<^verbatim>\<open>uint8_t\<close>, so
  the conversion is defined, and that differs from the exact quotient by less than
  \<open>2^-40\<close>.
\<close>

lemma vaux_setting:
  assumes "lit_0_8 \<le> x" and "x \<le> 11 / 2"
  shows "\<exists>q. double_div (double_sub (Fin x) lit_0_8) lit_0_05 = Fin q \<and> 0 \<le> q \<and> q < 95 \<and>
           \<bar>q - (x - 8 / 10) / (5 / 100)\<bar> < 1 / 2 ^ 40"
proof -
  have "0 \<le> x - lit_0_8" using assms(1) by simp
  moreover have "x - lit_0_8 < 2 powi (2 + 1)" using assms(2) by (simp add: lit_0_8_def)
  ultimately obtain r where r: "round_binary64 (x - lit_0_8) = Fin r" "0 \<le> r"
      "\<bar>r - (x - lit_0_8)\<bar> \<le> 2 powi (2 - 53)"
    using round_binary64_bounds [of "x - lit_0_8" 2] by auto
  from r(3) have "\<bar>r - (x - lit_0_8)\<bar> \<le> 1 / 2251799813685248" by simp
  then have r_hi: "r \<le> x - lit_0_8 + 1 / 2251799813685248"
    and r_lo: "x - lit_0_8 - 1 / 2251799813685248 \<le> r" by linarith+
  have d: "r / lit_0_05 = r * (72057594037927936 / 3602879701896397)"
    by (simp add: lit_0_05_def)
  have "0 \<le> r / lit_0_05" using r(2) by (simp add: lit_0_05_def)
  moreover have "r / lit_0_05 < 2 powi (6 + 1)"
    using r_hi assms unfolding d lit_0_8_def by simp
  ultimately obtain q where q: "round_binary64 (r / lit_0_05) = Fin q" "0 \<le> q"
      "\<bar>q - r / lit_0_05\<bar> \<le> 2 powi (6 - 53)"
    using round_binary64_bounds [of "r / lit_0_05" 6] by auto
  from q(3) have "\<bar>q - r / lit_0_05\<bar> \<le> 1 / 140737488355328" by simp
  then have q_hi: "q \<le> r * (72057594037927936 / 3602879701896397) + 1 / 140737488355328"
    and q_lo: "r * (72057594037927936 / 3602879701896397) - 1 / 140737488355328 \<le> q"
    unfolding d by linarith+
  have 1: "double_div (double_sub (Fin x) lit_0_8) lit_0_05 = Fin q"
    by (simp add: double_div_def double_sub_def r(1) q(1))
  have 2: "q < 95"
    using q_hi r_hi assms unfolding lit_0_8_def by simp
  have e: "(x - 8 / 10) / (5 / 100) = 20 * x - 16" by simp
  have "q - (20 * x - 16) < 1 / 1099511627776"
    using q_hi r_hi assms unfolding lit_0_8_def by linarith
  moreover have "- (1 / 1099511627776) < q - (20 * x - 16)"
    using q_lo r_lo assms unfolding lit_0_8_def by linarith
  ultimately have "\<bar>q - (20 * x - 16)\<bar> < 1 / 1099511627776"
    by linarith
  then have 3: "\<bar>q - (x - 8 / 10) / (5 / 100)\<bar> < 1 / 2 ^ 40"
    unfolding e by simp
  from 1 q(2) 2 3 show ?thesis by blast
qed

lemma vio_setting:
  assumes "lit_0_8 \<le> x" and "x \<le> 346 / 100"
  shows "\<exists>q. double_div (double_sub (Fin x) lit_0_8) lit_0_025 = Fin q \<and> 0 \<le> q \<and> q < 107 \<and>
           \<bar>q - (x - 8 / 10) / (25 / 1000)\<bar> < 1 / 2 ^ 40"
proof -
  have "0 \<le> x - lit_0_8" using assms(1) by simp
  moreover have "x - lit_0_8 < 2 powi (1 + 1)" using assms(2) by (simp add: lit_0_8_def)
  ultimately obtain r where r: "round_binary64 (x - lit_0_8) = Fin r" "0 \<le> r"
      "\<bar>r - (x - lit_0_8)\<bar> \<le> 2 powi (1 - 53)"
    using round_binary64_bounds [of "x - lit_0_8" 1] by auto
  from r(3) have "\<bar>r - (x - lit_0_8)\<bar> \<le> 1 / 4503599627370496" by simp
  then have r_hi: "r \<le> x - lit_0_8 + 1 / 4503599627370496"
    and r_lo: "x - lit_0_8 - 1 / 4503599627370496 \<le> r" by linarith+
  have d: "r / lit_0_025 = r * (144115188075855872 / 3602879701896397)"
    by (simp add: lit_0_025_def)
  have "0 \<le> r / lit_0_025" using r(2) by (simp add: lit_0_025_def)
  moreover have "r / lit_0_025 < 2 powi (6 + 1)"
    using r_hi assms unfolding d lit_0_8_def by simp
  ultimately obtain q where q: "round_binary64 (r / lit_0_025) = Fin q" "0 \<le> q"
      "\<bar>q - r / lit_0_025\<bar> \<le> 2 powi (6 - 53)"
    using round_binary64_bounds [of "r / lit_0_025" 6] by auto
  from q(3) have "\<bar>q - r / lit_0_025\<bar> \<le> 1 / 140737488355328" by simp
  then have q_hi: "q \<le> r * (144115188075855872 / 3602879701896397) + 1 / 140737488355328"
    and q_lo: "r * (144115188075855872 / 3602879701896397) - 1 / 140737488355328 \<le> q"
    unfolding d by linarith+
  have 1: "double_div (double_sub (Fin x) lit_0_8) lit_0_025 = Fin q"
    by (simp add: double_div_def double_sub_def r(1) q(1))
  have 2: "q < 107"
    using q_hi r_hi assms unfolding lit_0_8_def by simp
  have e: "(x - 8 / 10) / (25 / 1000) = 40 * x - 32" by simp
  have "q - (40 * x - 32) < 1 / 1099511627776"
    using q_hi r_hi assms unfolding lit_0_8_def by linarith
  moreover have "- (1 / 1099511627776) < q - (40 * x - 32)"
    using q_lo r_lo assms unfolding lit_0_8_def by linarith
  ultimately have "\<bar>q - (40 * x - 32)\<bar> < 1 / 1099511627776"
    by linarith
  then have 3: "\<bar>q - (x - 8 / 10) / (25 / 1000)\<bar> < 1 / 2 ^ 40"
    unfolding e by simp
  from 1 q(2) 2 3 show ?thesis by blast
qed

lemma double_to_uint8_Fin:
  assumes "0 \<le> q" and "q < 256"
  shows "double_to_uint8 (Fin q) = Some (word_of_int \<lfloor>q\<rfloor>)"
proof -
  have "0 \<le> \<lfloor>q\<rfloor>" using assms(1) by simp
  moreover have "\<lfloor>q\<rfloor> \<le> 255" using assms(2) by (simp add: floor_le_iff)
  ultimately show ?thesis
    using assms(1) by (simp add: double_to_uint8_def trunc_toward_zero_def)
qed

lemma set_vaux_writes:
  assumes "bus_ok hw" and "lit_0_8 \<le> x" and "x \<le> 11 / 2"
    and "double_div (double_sub (Fin x) lit_0_8) lit_0_05 = Fin q" and "0 \<le> q" and "q < 256"
    and "lit_3_46 < x \<longrightarrow> \<not> bit (snd (hw (tr @ [TWIM_TXRX 0x48 [0x39] 1])) 0) 3"
  shows "s1_pmic_set_vaux hw (Fin x) tr =
     (Inr S1_SUCCESS,
      tr @ (if lit_3_46 < x then [TWIM_TXRX 0x48 [0x39] 1] else []) @
           [TWIM_TX 0x48 [0x2D, word_of_int \<lfloor>q\<rfloor>], TWIM_TX 0x48 [0x2E, 0x0E]])"
proof -
  have x0: "x \<noteq> 0" using assms(2) by (auto simp: lit_0_8_def)
  have ok: "fst (hw h) = NRFX_SUCCESS" for h using assms(1) by (simp add: bus_ok_def)
  show ?thesis
    using assms(2,3,7) x0
    by (simp add: s1_pmic_set_vaux_def bind_def return_def pmic_read_reg_eq pmic_write_reg_eq ok
        lit_5_5_def lit_0_0_def and_8_bit3 assms(4) double_to_uint8_Fin [OF assms(5,6)])
qed

lemma set_vio_writes:
  assumes "bus_ok hw" and "lit_0_8 \<le> x" and "x \<le> lit_3_46"
    and "double_div (double_sub (Fin x) lit_0_8) lit_0_025 = Fin q" and "0 \<le> q" and "q < 256"
  shows "s1_pmic_set_vio hw (Fin x) tr =
     (Inr S1_SUCCESS,
      tr @ [TWIM_TX 0x48 [0x38, word_of_int \<lfloor>q\<rfloor>], TWIM_TX 0x48 [0x39, 0x0E]])"
proof -
  have x0: "x \<noteq> 0" using assms(2) by (auto simp: lit_0_8_def)
  have ok: "fst (hw h) = NRFX_SUCCESS" for h using assms(1) by (simp add: bus_ok_def)
  show ?thesis
    using assms(2,3) x0
    by (simp add: s1_pmic_set_vio_def bind_def return_def pmic_write_reg_eq ok
        lit_0_0_def assms(4) double_to_uint8_Fin [OF assms(5,6)])
qed

lemma floor_rat_numeral:
  "\<lfloor>numeral a / numeral b :: rat\<rfloor> = numeral a div numeral b"
  by (metis floor_divide_of_int_eq of_int_numeral)

text \<open>The literals are the decimal constants rounded to binary64; some settings evaluated.\<close>

lemmas eval_simps = round_half_even_def Let_def floor_rat_numeral
  lit_0_8_def lit_0_05_def lit_0_025_def lit_3_46_def lit_5_5_def lit_0_0_def

lemma literal_values:
  "round_binary64 (8 / 10) = Fin lit_0_8"
  "round_binary64 (55 / 10) = Fin lit_5_5"
  "round_binary64 (346 / 100) = Fin lit_3_46"
  "round_binary64 (5 / 100) = Fin lit_0_05"
  "round_binary64 (25 / 1000) = Fin lit_0_025"
  "round_binary64 0 = Fin lit_0_0"
proof -
  show "round_binary64 (8 / 10) = Fin lit_0_8"
    by (subst round_binary64_eval [where e = "- 1"]) (simp_all add: eval_simps)
  show "round_binary64 (55 / 10) = Fin lit_5_5"
    by (subst round_binary64_eval [where e = 2]) (simp_all add: eval_simps)
  show "round_binary64 (346 / 100) = Fin lit_3_46"
    by (subst round_binary64_eval [where e = 1]) (simp_all add: eval_simps)
  show "round_binary64 (5 / 100) = Fin lit_0_05"
    by (subst round_binary64_eval [where e = "- 5"]) (simp_all add: eval_simps)
  show "round_binary64 (25 / 1000) = Fin lit_0_025"
    by (subst round_binary64_eval [where e = "- 6"]) (simp_all add: eval_simps)
  show "round_binary64 0 = Fin lit_0_0"
    by (simp add: round_binary64_def lit_0_0_def)
qed

lemma vaux_setting_4: "double_div (double_sub (Fin 4) lit_0_8) lit_0_05 = Fin 64"
proof -
  have "double_sub (Fin 4) lit_0_8 = Fin (3602879701896397 / 1125899906842624)"
    unfolding double_sub_def fpval.case
    by (subst round_binary64_eval [where e = 1]) (simp_all add: eval_simps)
  moreover have "double_div (Fin (3602879701896397 / 1125899906842624)) lit_0_05 = Fin 64"
    unfolding double_div_def fpval.case
    by (subst round_binary64_eval [where e = 6]) (simp_all add: eval_simps)
  ultimately show ?thesis by simp
qed

lemma vaux_setting_1:
  "double_div (double_sub (Fin 1) lit_0_8) lit_0_05 = Fin (4503599627370495 / 1125899906842624)"
proof -
  have "double_sub (Fin 1) lit_0_8 = Fin (900719925474099 / 4503599627370496)"
    unfolding double_sub_def fpval.case
    by (subst round_binary64_eval [where e = "- 3"]) (simp_all add: eval_simps)
  moreover have "double_div (Fin (900719925474099 / 4503599627370496)) lit_0_05 =
      Fin (4503599627370495 / 1125899906842624)"
    unfolding double_div_def fpval.case
    by (subst round_binary64_eval [where e = 1]) (simp_all add: eval_simps)
  ultimately show ?thesis by simp
qed

lemma vio_setting_1:
  "double_div (double_sub (Fin 1) lit_0_8) lit_0_025 = Fin (4503599627370495 / 562949953421312)"
proof -
  have "double_sub (Fin 1) lit_0_8 = Fin (900719925474099 / 4503599627370496)"
    unfolding double_sub_def fpval.case
    by (subst round_binary64_eval [where e = "- 3"]) (simp_all add: eval_simps)
  moreover have "double_div (Fin (900719925474099 / 4503599627370496)) lit_0_025 =
      Fin (4503599627370495 / 562949953421312)"
    unfolding double_div_def fpval.case
    by (subst round_binary64_eval [where e = 2]) (simp_all add: eval_simps)
  ultimately show ?thesis by simp
qed

lemma is_binary32_examples:
  "is_binary32 1" "is_binary32 6"
  by code_simp+

lemma lit_0_8_gt: "8 / 10 < lit_0_8"
  by (simp add: lit_0_8_def)

lemma lit_3_46_lt: "lit_3_46 < 346 / 100"
  by (simp add: lit_3_46_def)

lemma c_round_4: "c_round ((1 - 8 / 10) / (5 / 100)) = 4"
  by (simp add: c_round_def floor_rat_numeral)

lemma c_round_8: "c_round ((1 - 8 / 10) / (25 / 1000)) = 8"
  by (simp add: c_round_def floor_rat_numeral)

lemma hw_reply_rx: "snd (hw_reply bs h) i = (if i < length bs then bs ! i else 0)"
  by (simp add: hw_reply_def)

text \<open>
  The two faults of the model: a NaN passes both range checks and reaches the undefined
  conversion; a failing transfer ends the call at \<^verbatim>\<open>APP_ERROR_CHECK\<close>.
\<close>

lemma set_vaux_nan: "s1_pmic_set_vaux hw NaN tr = (Inl UNDEFINED_CONVERSION, tr)"
  by (simp add: s1_pmic_set_vaux_def bind_def return_def fail_def double_sub_def double_div_def
      double_to_uint8_def)

lemma erase_all_bus_fault:
  "s1_flash_erase_all hw_dead [] = (Inl APP_ERROR, [SPIM_INIT spi_config, SPIM_XFER [0x06] 0])"
  by (simp add: s1_flash_erase_all_def bind_def flash_tx_rx_eq hw_dead_def)

section \<open>FPGA core rail\<close>

text \<open>
  C1. Disabling the FPGA core rail (\<^verbatim>\<open>s1_pimc_fpga_vcore(false)\<close>): whatever the bus
  answers, the write that disables the core rail (register 0x2C, value 0x7C) only occurs
  after the write that shuts the I/O rail down (register 0x39, value 0x0C) has been issued;
  and when no transfer fails the call issues exactly the writes 0x2B, 0x39, 0x2C in this
  order.
\<close>

theorem vcore_disable_order:
  "\<exists>evs. snd (s1_pimc_fpga_vcore hw False tr) = tr @ evs \<and>
     (\<forall>i < length evs. evs ! i = TWIM_TX 0x48 [0x2C, 0x7C] \<longrightarrow>
        (\<exists>j < i. evs ! j = TWIM_TX 0x48 [0x39, 0x0C])) \<and>
     (bus_ok hw \<longrightarrow> fst (s1_pimc_fpga_vcore hw False tr) = Inr () \<and>
        evs = [TWIM_TX 0x48 [0x2B, 0x08], TWIM_TX 0x48 [0x39, 0x0C], TWIM_TX 0x48 [0x2C, 0x7C]])"
proof -
  have ok: "s1_pimc_fpga_vcore hw False tr =
        (Inr (), tr @ [TWIM_TX 0x48 [0x2B, 0x08], TWIM_TX 0x48 [0x39, 0x0C], TWIM_TX 0x48 [0x2C, 0x7C]])"
    if "bus_ok hw"
    using that by (simp add: s1_pimc_fpga_vcore_def bind_def pmic_write_reg_eq bus_ok_def)
  from vcore_disable_cases [of hw tr] consider
      (a) "snd (s1_pimc_fpga_vcore hw False tr) = tr @ [TWIM_TX 0x48 [0x2B, 0x08]]"
    | (b) "snd (s1_pimc_fpga_vcore hw False tr) = tr @ [TWIM_TX 0x48 [0x2B, 0x08], TWIM_TX 0x48 [0x39, 0x0C]]"
    | (c) "snd (s1_pimc_fpga_vcore hw False tr) = tr @ [TWIM_TX 0x48 [0x2B, 0x08], TWIM_TX 0x48 [0x39, 0x0C], TWIM_TX 0x48 [0x2C, 0x7C]]"
    by blast
  then show ?thesis
  proof cases
    case a
    show ?thesis
      by (rule exI [of _ "[TWIM_TX 0x48 [0x2B, 0x08]]"]) (use a ok in auto)
  next
    case b
    show ?thesis
      by (rule exI [of _ "[TWIM_TX 0x48 [0x2B, 0x08], TWIM_TX 0x48 [0x39, 0x0C]]"])
         (use b ok in \<open>auto simp: less_Suc_eq\<close>)
  next
    case c
    have "\<exists>j<i. [TWIM_TX 0x48 [0x2B, 0x08], TWIM_TX 0x48 [0x39, 0x0C], TWIM_TX 0x48 [0x2C, 0x7C]] ! j = TWIM_TX 0x48 [0x39, 0x0C]"
      if "i < 3" "[TWIM_TX 0x48 [0x2B, 0x08], TWIM_TX 0x48 [0x39, 0x0C], TWIM_TX 0x48 [0x2C, 0x7C :: 8 word]] ! i = TWIM_TX 0x48 [0x2C, 0x7C]" for i
    proof -
      from that have "i = 2" by (auto simp: less_Suc_eq numeral_3_eq_3)
      then show ?thesis by (intro exI [of _ 1]) simp
    qed
    then show ?thesis
      by (intro exI [of _ "[TWIM_TX 0x48 [0x2B, 0x08], TWIM_TX 0x48 [0x39, 0x0C], TWIM_TX 0x48 [0x2C, 0x7C]]"])
         (use c ok in auto)
  qed
qed

theorem vcore_disable_order_witness:
  "bus_ok (hw_reply []) \<and>
   s1_pimc_fpga_vcore (hw_reply []) False [] =
     (Inr (), [TWIM_TX 0x48 [0x2B, 0x08], TWIM_TX 0x48 [0x39, 0x0C], TWIM_TX 0x48 [0x2C, 0x7C]]) \<and>
   [TWIM_TX 0x48 [0x2B, 0x08], TWIM_TX 0x48 [0x39, 0x0C], TWIM_TX 0x48 [0x2C, 0x7C :: 8 word]] ! 2 = TWIM_TX 0x48 [0x2C, 0x7C] \<and>
   [TWIM_TX 0x48 [0x2B, 0x08], TWIM_TX 0x48 [0x39, 0x0C], TWIM_TX 0x48 [0x2C, 0x7C :: 8 word]] ! 1 = TWIM_TX 0x48 [0x39, 0x0C]"
  using vcore_disable_order [of "hw_reply []" "[]"] bus_ok_hw_reply [of "[]"]
  by (cases "s1_pimc_fpga_vcore (hw_reply []) False []") auto

text \<open>
  C9. For either argument and whatever happened before, the first driver call of
  \<^verbatim>\<open>s1_pimc_fpga_vcore\<close> is the write of the 1.2 V code 0x08 to register 0x2B.
\<close>

theorem vcore_first_write:
  "\<exists>rest. snd (s1_pimc_fpga_vcore hw enable tr) = tr @ TWIM_TX 0x48 [0x2B, 0x08] # rest"
  by (simp add: s1_pimc_fpga_vcore_def bind_def pmic_write_reg_eq)

text \<open>
  C10. Enabling the FPGA core rail (\<^verbatim>\<open>s1_pimc_fpga_vcore(true)\<close>) issues no write to
  the I/O rail's control register 0x39: every driver call it makes is the write of 0x08 to
  register 0x2B or the write of 0x7E to register 0x2C, and when no transfer fails it makes
  exactly these two, in this order.
\<close>

theorem vcore_enable_frame:
  "\<exists>evs. snd (s1_pimc_fpga_vcore hw True tr) = tr @ evs \<and>
     (\<forall>e \<in> set evs. e = TWIM_TX 0x48 [0x2B, 0x08] \<or> e = TWIM_TX 0x48 [0x2C, 0x7E]) \<and>
     (\<forall>e \<in> set evs. \<forall>v. e \<noteq> TWIM_TX 0x48 [0x39, v]) \<and>
     (bus_ok hw \<longrightarrow> fst (s1_pimc_fpga_vcore hw True tr) = Inr () \<and>
        evs = [TWIM_TX 0x48 [0x2B, 0x08], TWIM_TX 0x48 [0x2C, 0x7E]])"
proof -
  have ok: "s1_pimc_fpga_vcore hw True tr =
        (Inr (), tr @ [TWIM_TX 0x48 [0x2B, 0x08], TWIM_TX 0x48 [0x2C, 0x7E]])"
    if "bus_ok hw"
    using that by (simp add: s1_pimc_fpga_vcore_def bind_def pmic_write_reg_eq bus_ok_def)
  from vcore_enable_cases [of hw tr] show ?thesis
  proof
    assume a: "snd (s1_pimc_fpga_vcore hw True tr) = tr @ [TWIM_TX 0x48 [0x2B, 0x08]]"
    show ?thesis
      by (rule exI [of _ "[TWIM_TX 0x48 [0x2B, 0x08]]"]) (use a ok in auto)
  next
    assume b: "snd (s1_pimc_fpga_vcore hw True tr) = tr @ [TWIM_TX 0x48 [0x2B, 0x08], TWIM_TX 0x48 [0x2C, 0x7E]]"
    show ?thesis
      by (rule exI [of _ "[TWIM_TX 0x48 [0x2B, 0x08], TWIM_TX 0x48 [0x2C, 0x7E]]"]) (use b ok in auto)
  qed
qed

theorem vcore_enable_frame_witness:
  "bus_ok (hw_reply []) \<and>
   s1_pimc_fpga_vcore (hw_reply []) True [] =
     (Inr (), [TWIM_TX 0x48 [0x2B, 0x08], TWIM_TX 0x48 [0x2C, 0x7E]]) \<and>
   TWIM_TX 0x48 [0x2C, 0x7E] \<in> set (snd (s1_pimc_fpga_vcore (hw_reply []) True []))"
  using vcore_enable_frame [of "hw_reply []" "[]"] bus_ok_hw_reply [of "[]"]
  by (cases "s1_pimc_fpga_vcore (hw_reply []) True []") auto

section \<open>Flash\<close>

text \<open>
  C8. When no transfer fails, \<^verbatim>\<open>s1_flash_erase_all\<close> issues exactly two SPI
  transfers, each of one byte with nothing received: first 0x06, then 0x60.
\<close>

theorem erase_all_trace:
  "bus_ok hw \<Longrightarrow>
   s1_flash_erase_all hw tr =
     (Inr (), tr @ [SPIM_INIT spi_config, SPIM_XFER [0x06] 0,
                    SPIM_INIT spi_config, SPIM_XFER [0x60] 0]) \<and>
   filter is_spim_xfer (drop (length tr) (snd (s1_flash_erase_all hw tr))) =
     [SPIM_XFER [0x06] 0, SPIM_XFER [0x60] 0]"
  by (simp add: s1_flash_erase_all_def bind_def flash_tx_rx_ok return_def)

theorem erase_all_trace_witness:
  "bus_ok (hw_reply []) \<and>
   s1_flash_erase_all (hw_reply []) [] =
     (Inr (), [SPIM_INIT spi_config, SPIM_XFER [0x06] 0,
               SPIM_INIT spi_config, SPIM_XFER [0x60] 0])"
  using erase_all_trace [OF bus_ok_hw_reply, of "[]" "[]"] bus_ok_hw_reply [of "[]"]
  by simp

text \<open>
  C4. When no transfer fails, \<^verbatim>\<open>s1_flash_wakeup\<close> issues exactly four SPI transfers:
  the four bytes 0xAB, 0, 0, 0, then a delay of 3 us, the byte 0x66, the byte 0x99, then a
  delay of 30 us, and the byte 0x9F with four bytes received. It returns
  \<^verbatim>\<open>S1_SUCCESS\<close> when the fourth received byte is 0x16 and \<^verbatim>\<open>S1_FLASH_ERROR\<close>
  otherwise.
\<close>

theorem flash_wakeup_trace:
  assumes "bus_ok hw"
    and "snd (hw (tr @ [SPIM_INIT spi_config, SPIM_XFER [0xAB, 0, 0, 0] 0, DELAY_US 3,
                        SPIM_INIT spi_config, SPIM_XFER [0x66] 0,
                        SPIM_INIT spi_config, SPIM_XFER [0x99] 0, DELAY_US 30,
                        SPIM_INIT spi_config, SPIM_XFER [0x9F] 4])) = rx"
  shows "s1_flash_wakeup hw tr =
     (Inr (if rx 3 = 0x16 then S1_SUCCESS else S1_FLASH_ERROR),
      tr @ [SPIM_INIT spi_config, SPIM_XFER [0xAB, 0, 0, 0] 0, DELAY_US 3,
            SPIM_INIT spi_config, SPIM_XFER [0x66] 0,
            SPIM_INIT spi_config, SPIM_XFER [0x99] 0, DELAY_US 30,
            SPIM_INIT spi_config, SPIM_XFER [0x9F] 4,
            LOG ''Flash capacity = 0x%x'' [rx 3]]) \<and>
     filter is_spim_xfer (drop (length tr) (snd (s1_flash_wakeup hw tr))) =
           [SPIM_XFER [0xAB, 0, 0, 0] 0, SPIM_XFER [0x66] 0, SPIM_XFER [0x99] 0, SPIM_XFER [0x9F] 4]"
  using assms(2) by (simp add: flash_wakeup_eq [OF assms(1)])

theorem flash_wakeup_trace_witness:
  "bus_ok (hw_reply [0, 0, 0, 0x16]) \<and>
   fst (s1_flash_wakeup (hw_reply [0, 0, 0, 0x16]) []) = Inr S1_SUCCESS \<and>
   filter is_spim_xfer (snd (s1_flash_wakeup (hw_reply [0, 0, 0, 0x16]) [])) =
     [SPIM_XFER [0xAB, 0, 0, 0] 0, SPIM_XFER [0x66] 0, SPIM_XFER [0x99] 0, SPIM_XFER [0x9F] 4]"
  using flash_wakeup_trace [OF bus_ok_hw_reply refl, of "[0, 0, 0, 0x16]" "[]"]
    bus_ok_hw_reply [of "[0, 0, 0, 0x16]"]
  by (simp add: hw_reply_def)

text \<open>
  C7. When the status transfer succeeds, \<^verbatim>\<open>s1_flash_is_busy\<close> sends 0x05, receives
  two bytes and returns whether bit 0 of the second byte is set. A call at any other point
  of the history that receives the same two bytes returns the same result and makes the
  same driver calls.
\<close>

theorem flash_is_busy_result:
  assumes "hw (tr @ [SPIM_INIT spi_config, SPIM_XFER [0x05] 2]) = (NRFX_SUCCESS, rx)"
    and "hw (tr' @ [SPIM_INIT spi_config, SPIM_XFER [0x05] 2]) = (NRFX_SUCCESS, rx')"
    and "rx' 0 = rx 0" and "rx' 1 = rx 1"
  shows "s1_flash_is_busy hw tr =
     (Inr (bit (rx 1) 0),
      tr @ [SPIM_INIT spi_config, SPIM_XFER [0x05] 2, LOG ''Status: 0x%x'' [rx 1]] @
           (if bit (rx 1) 0 then [] else [LOG ''Erase Done!'' []])) \<and>
     fst (s1_flash_is_busy hw tr') = fst (s1_flash_is_busy hw tr) \<and>
     drop (length tr') (snd (s1_flash_is_busy hw tr')) = drop (length tr) (snd (s1_flash_is_busy hw tr))"
  using assms by (simp add: flash_is_busy_eq)

theorem flash_is_busy_result_witness:
  "s1_flash_is_busy (hw_reply [0, 0x03]) [] =
     (Inr True, [SPIM_INIT spi_config, SPIM_XFER [0x05] 2, LOG ''Status: 0x%x'' [0x03]]) \<and>
   fst (s1_flash_is_busy (hw_reply [0, 0x03])
       [SPIM_INIT spi_config, SPIM_XFER [0x05] 2, LOG ''Status: 0x%x'' [0x03]]) = Inr True \<and>
   drop 3 (snd (s1_flash_is_busy (hw_reply [0, 0x03])
       [SPIM_INIT spi_config, SPIM_XFER [0x05] 2, LOG ''Status: 0x%x'' [0x03]])) =
     [SPIM_INIT spi_config, SPIM_XFER [0x05] 2, LOG ''Status: 0x%x'' [0x03]]"
proof -
  have r1: "hw_reply [0, 0x03] ([] @ [SPIM_INIT spi_config, SPIM_XFER [0x05] 2]) =
              (NRFX_SUCCESS, snd (hw_reply [0, 0x03] []))"
    by (simp add: hw_reply_def)
  have r2: "hw_reply [0, 0x03] ([SPIM_INIT spi_config, SPIM_XFER [0x05] 2, LOG ''Status: 0x%x'' [0x03]] @
              [SPIM_INIT spi_config, SPIM_XFER [0x05] 2]) =
              (NRFX_SUCCESS, snd (hw_reply [0, 0x03] []))"
    by (simp add: hw_reply_def)
  have b: "snd (hw_reply [0, 0x03] []) 1 = 0x03"
    by (simp add: hw_reply_def)
  have t: "bit (0x03 :: 8 word) 0"
    by simp
  from flash_is_busy_result [OF r1 r2 refl refl]
  show ?thesis
    unfolding b using t by (simp add: numeral_3_eq_3)
qed

section \<open>Voltage rails\<close>

text \<open>
  C3 says that at 0.0 V each function succeeds with exactly one shutdown write. The code
  at 0.0 V: both \<^verbatim>\<open>s1_pmic_set_vaux\<close> and \<^verbatim>\<open>s1_pmic_set_vio\<close> return
  \<^verbatim>\<open>S1_INVALID_SETTING\<close> from the range check without any driver call, so the shutdown
  branch that follows the range check is never reached.
\<close>

theorem shutdown_branch_unreachable:
  "s1_pmic_set_vaux hw (Fin 0) tr = (Inr S1_INVALID_SETTING, tr) \<and>
   s1_pmic_set_vio hw (Fin 0) tr = (Inr S1_INVALID_SETTING, tr)"
  by (simp add: s1_pmic_set_vaux_def s1_pmic_set_vio_def lit_0_8_def return_def)

text \<open>
  C2, as amended. For a voltage above 3.46 and at most 5.5, the first driver call of
  \<^verbatim>\<open>s1_pmic_set_vaux\<close> is the read of register 0x39, before any write; when that read
  succeeds and bit 3 of the value read is set, the function returns
  \<^verbatim>\<open>S1_INVALID_SETTING\<close> and the read is its only driver call. For a voltage above 5.5
  (also for an infinite one) the range check returns \<^verbatim>\<open>S1_INVALID_SETTING\<close> with no
  driver call at all: the register is not read.
\<close>

theorem set_vaux_mode_check:
  "(346 / 100 < x \<and> x \<le> 55 / 10 \<longrightarrow>
      (\<exists>rest. snd (s1_pmic_set_vaux hw (Fin x) tr) = tr @ TWIM_TXRX 0x48 [0x39] 1 # rest) \<and>
      (fst (hw (tr @ [TWIM_TXRX 0x48 [0x39] 1])) = NRFX_SUCCESS \<and>
       bit (snd (hw (tr @ [TWIM_TXRX 0x48 [0x39] 1])) 0) 3 \<longrightarrow>
         s1_pmic_set_vaux hw (Fin x) tr =
           (Inr S1_INVALID_SETTING, tr @ [TWIM_TXRX 0x48 [0x39] 1]))) \<and>
   (55 / 10 < x \<longrightarrow> s1_pmic_set_vaux hw (Fin x) tr = (Inr S1_INVALID_SETTING, tr)) \<and>
   s1_pmic_set_vaux hw PInf tr = (Inr S1_INVALID_SETTING, tr)"
proof (intro conjI impI)
  assume a: "346 / 100 < x \<and> x \<le> 55 / 10"
  then have c: "\<not> x < lit_0_8" "\<not> lit_5_5 < x" "lit_3_46 < x"
    using lit_3_46_lt by (auto simp: lit_0_8_def lit_5_5_def)
  show "\<exists>rest. snd (s1_pmic_set_vaux hw (Fin x) tr) = tr @ TWIM_TXRX 0x48 [0x39] 1 # rest"
    using c
    by (simp add: s1_pmic_set_vaux_def bind_def return_def fail_def pmic_read_reg_eq
        pmic_write_reg_eq split: option.splits)
  assume "fst (hw (tr @ [TWIM_TXRX 0x48 [0x39] 1])) = NRFX_SUCCESS \<and>
       bit (snd (hw (tr @ [TWIM_TXRX 0x48 [0x39] 1])) 0) 3"
  then show "s1_pmic_set_vaux hw (Fin x) tr =
           (Inr S1_INVALID_SETTING, tr @ [TWIM_TXRX 0x48 [0x39] 1])"
    using c
    by (simp add: s1_pmic_set_vaux_def bind_def return_def pmic_read_reg_eq and_8_bit3)
next
  assume "55 / 10 < x"
  then show "s1_pmic_set_vaux hw (Fin x) tr = (Inr S1_INVALID_SETTING, tr)"
    by (simp add: s1_pmic_set_vaux_def return_def lit_5_5_def)
next
  show "s1_pmic_set_vaux hw PInf tr = (Inr S1_INVALID_SETTING, tr)"
    by (simp add: s1_pmic_set_vaux_def return_def)
qed

theorem set_vaux_mode_check_witness:
  "(346 / 100 :: rat) < 4 \<and> (4 :: rat) \<le> 55 / 10 \<and>
   fst (hw_reply [0x08] ([] @ [TWIM_TXRX 0x48 [0x39] 1])) = NRFX_SUCCESS \<and>
   bit (snd (hw_reply [0x08] ([] @ [TWIM_TXRX 0x48 [0x39] 1])) 0) 3 \<and>
   s1_pmic_set_vaux (hw_reply [0x08]) (Fin 4) [] =
     (Inr S1_INVALID_SETTING, [TWIM_TXRX 0x48 [0x39] 1]) \<and>
   (55 / 10 :: rat) < 6 \<and>
   s1_pmic_set_vaux (hw_reply [0x08]) (Fin 6) [] = (Inr S1_INVALID_SETTING, [])"
proof -
  have b: "bit (8 :: 8 word) 3" by simp
  have h: "fst (hw_reply [0x08] ([] @ [TWIM_TXRX 0x48 [0x39] 1])) = NRFX_SUCCESS \<and>
      bit (snd (hw_reply [0x08] ([] @ [TWIM_TXRX 0x48 [0x39] 1])) 0) 3"
    using b by (simp add: hw_reply_def)
  have r: "(346 / 100 :: rat) < 4 \<and> (4 :: rat) \<le> 55 / 10" by simp
  have r6: "(55 / 10 :: rat) < 6" by simp
  from set_vaux_mode_check [of 4 "hw_reply [0x08]" "[]"] r h
  have 1: "s1_pmic_set_vaux (hw_reply [0x08]) (Fin 4) [] =
     (Inr S1_INVALID_SETTING, [] @ [TWIM_TXRX 0x48 [0x39] 1])"
    by blast
  from set_vaux_mode_check [of 6 "hw_reply [0x08]" "[]"] r6
  have 2: "s1_pmic_set_vaux (hw_reply [0x08]) (Fin 6) [] = (Inr S1_INVALID_SETTING, [])"
    by blast
  from 1 2 h r r6 show ?thesis by simp
qed

text \<open>
  C2 as stated fails at 6.0 V, which is above 3.46: the call makes no driver call, so the
  mode register is not read, although the hardware would report bit 3 set.
\<close>

theorem set_vaux_mode_read_counterexample:
  "(346 / 100 :: rat) < 6 \<and> is_binary32 6 \<and>
   bit (snd (hw_reply [0x08] [TWIM_TXRX 0x48 [0x39] 1]) 0) 3 \<and>
   s1_pmic_set_vaux (hw_reply [0x08]) (Fin 6) [] = (Inr S1_INVALID_SETTING, []) \<and>
   TWIM_TXRX 0x48 [0x39] 1 \<notin> set (snd (s1_pmic_set_vaux (hw_reply [0x08]) (Fin 6) []))"
proof -
  have b: "bit (8 :: 8 word) 3" by simp
  have "s1_pmic_set_vaux (hw_reply [0x08]) (Fin 6) [] = (Inr S1_INVALID_SETTING, [])"
    by (simp add: s1_pmic_set_vaux_def return_def lit_5_5_def)
  then show ?thesis
    using b by (simp add: is_binary32_examples hw_reply_def)
qed

text \<open>
  What the two functions do with an accepted \<^verbatim>\<open>float\<close> voltage on a bus without faults:
  the setting written is the binary64 value \<open>q\<close> of the quotient, truncated toward zero by
  the conversion to \<^verbatim>\<open>uint8_t\<close>. The value \<open>q\<close> is within \<open>2^-40\<close> of the exact quotient
  and the conversion is always defined. \<^verbatim>\<open>s1_pmic_set_vaux\<close> reads register 0x39 only above
  3.46 V; at 4.0 V with the register reading 0x00 it writes the setting 64.
  \<^verbatim>\<open>s1_pmic_set_vio\<close> rejects every non-zero voltage outside 0.8 to 3.46.
\<close>

lemma set_vaux_accepted:
  "(is_binary32 x \<and> 8 / 10 \<le> x \<and> x \<le> 55 / 10 \<and> bus_ok hw \<and>
    (346 / 100 < x \<longrightarrow> \<not> bit (snd (hw (tr @ [TWIM_TXRX 0x48 [0x39] 1])) 0) 3) \<longrightarrow>
    (\<exists>q. double_div (double_sub (Fin x) lit_0_8) lit_0_05 = Fin q \<and>
         0 \<le> q \<and> q < 95 \<and> \<bar>q - (x - 8 / 10) / (5 / 100)\<bar> < 1 / 2 ^ 40 \<and>
         s1_pmic_set_vaux hw (Fin x) tr =
           (Inr S1_SUCCESS,
            tr @ (if 346 / 100 < x then [TWIM_TXRX 0x48 [0x39] 1] else []) @
                 [TWIM_TX 0x48 [0x2D, word_of_int \<lfloor>q\<rfloor>], TWIM_TX 0x48 [0x2E, 0x0E]]))) \<and>
   s1_pmic_set_vaux (hw_reply [0x00]) (Fin 4) [] =
     (Inr S1_SUCCESS,
      [TWIM_TXRX 0x48 [0x39] 1, TWIM_TX 0x48 [0x2D, 64], TWIM_TX 0x48 [0x2E, 0x0E]])"
proof (intro conjI impI)
  assume a: "is_binary32 x \<and> 8 / 10 \<le> x \<and> x \<le> 55 / 10 \<and> bus_ok hw \<and>
    (346 / 100 < x \<longrightarrow> \<not> bit (snd (hw (tr @ [TWIM_TXRX 0x48 [0x39] 1])) 0) 3)"
  then have lo: "lit_0_8 \<le> x" by (simp add: binary32_ge_0_8)
  from a have hi: "x \<le> 11 / 2" by simp
  from a have iff: "lit_3_46 < x \<longleftrightarrow> 346 / 100 < x"
    using binary32_gt_3_46 [of x] lit_3_46_lt by auto
  from vaux_setting [OF lo hi] obtain q where
    q: "double_div (double_sub (Fin x) lit_0_8) lit_0_05 = Fin q" "0 \<le> q" "q < 95"
       "\<bar>q - (x - 8 / 10) / (5 / 100)\<bar> < 1 / 2 ^ 40"
    by blast
  from q(3) have q256: "q < 256" by simp
  have "s1_pmic_set_vaux hw (Fin x) tr =
     (Inr S1_SUCCESS,
      tr @ (if lit_3_46 < x then [TWIM_TXRX 0x48 [0x39] 1] else []) @
           [TWIM_TX 0x48 [0x2D, word_of_int \<lfloor>q\<rfloor>], TWIM_TX 0x48 [0x2E, 0x0E]])"
    using a iff by (intro set_vaux_writes [OF _ lo hi q(1,2) q256]) simp_all
  with q iff show "\<exists>q. double_div (double_sub (Fin x) lit_0_8) lit_0_05 = Fin q \<and>
         0 \<le> q \<and> q < 95 \<and> \<bar>q - (x - 8 / 10) / (5 / 100)\<bar> < 1 / 2 ^ 40 \<and>
         s1_pmic_set_vaux hw (Fin x) tr =
           (Inr S1_SUCCESS,
            tr @ (if 346 / 100 < x then [TWIM_TXRX 0x48 [0x39] 1] else []) @
                 [TWIM_TX 0x48 [0x2D, word_of_int \<lfloor>q\<rfloor>], TWIM_TX 0x48 [0x2E, 0x0E]])"
    by (intro exI [of _ q]) simp
next
  have "s1_pmic_set_vaux (hw_reply [0x00]) (Fin 4) [] =
     (Inr S1_SUCCESS,
      [] @ (if lit_3_46 < 4 then [TWIM_TXRX 0x48 [0x39] 1] else []) @
           [TWIM_TX 0x48 [0x2D, word_of_int \<lfloor>64 :: rat\<rfloor>], TWIM_TX 0x48 [0x2E, 0x0E]])"
    by (rule set_vaux_writes [OF bus_ok_hw_reply _ _ vaux_setting_4])
       (simp_all add: lit_0_8_def hw_reply_rx)
  then show "s1_pmic_set_vaux (hw_reply [0x00]) (Fin 4) [] =
     (Inr S1_SUCCESS,
      [TWIM_TXRX 0x48 [0x39] 1, TWIM_TX 0x48 [0x2D, 64], TWIM_TX 0x48 [0x2E, 0x0E]])"
    by (simp add: lit_3_46_def)
qed

lemma set_vio_accepted:
  "(x \<noteq> 0 \<and> (x < 8 / 10 \<or> 346 / 100 < x) \<longrightarrow>
      s1_pmic_set_vio hw (Fin x) tr = (Inr S1_INVALID_SETTING, tr)) \<and>
   (is_binary32 x \<and> 8 / 10 \<le> x \<and> x \<le> 346 / 100 \<and> bus_ok hw \<longrightarrow>
    (\<exists>q. double_div (double_sub (Fin x) lit_0_8) lit_0_025 = Fin q \<and>
         0 \<le> q \<and> q < 107 \<and> \<bar>q - (x - 8 / 10) / (25 / 1000)\<bar> < 1 / 2 ^ 40 \<and>
         s1_pmic_set_vio hw (Fin x) tr =
           (Inr S1_SUCCESS,
            tr @ [TWIM_TX 0x48 [0x38, word_of_int \<lfloor>q\<rfloor>], TWIM_TX 0x48 [0x39, 0x0E]]))) \<and>
   s1_pmic_set_vio hw PInf tr = (Inr S1_INVALID_SETTING, tr) \<and>
   s1_pmic_set_vio hw NInf tr = (Inr S1_INVALID_SETTING, tr)"
proof (intro conjI impI)
  assume "x \<noteq> 0 \<and> (x < 8 / 10 \<or> 346 / 100 < x)"
  then have "x < lit_0_8 \<or> lit_3_46 < x"
    using lit_0_8_gt lit_3_46_lt by auto
  then show "s1_pmic_set_vio hw (Fin x) tr = (Inr S1_INVALID_SETTING, tr)"
    by (auto simp: s1_pmic_set_vio_def return_def)
next
  assume a: "is_binary32 x \<and> 8 / 10 \<le> x \<and> x \<le> 346 / 100 \<and> bus_ok hw"
  then have lo: "lit_0_8 \<le> x" by (simp add: binary32_ge_0_8)
  from a have hi: "x \<le> 346 / 100" by simp
  have "\<not> lit_3_46 < x"
  proof
    assume gt: "lit_3_46 < x"
    from a have "is_binary32 x" by simp
    from binary32_gt_3_46 [OF this gt] hi show False by simp
  qed
  then have hi': "x \<le> lit_3_46" by simp
  from vio_setting [OF lo hi] obtain q where
    q: "double_div (double_sub (Fin x) lit_0_8) lit_0_025 = Fin q" "0 \<le> q" "q < 107"
       "\<bar>q - (x - 8 / 10) / (25 / 1000)\<bar> < 1 / 2 ^ 40"
    by blast
  from q(3) have q256: "q < 256" by simp
  have "s1_pmic_set_vio hw (Fin x) tr =
     (Inr S1_SUCCESS,
      tr @ [TWIM_TX 0x48 [0x38, word_of_int \<lfloor>q\<rfloor>], TWIM_TX 0x48 [0x39, 0x0E]])"
    using a by (intro set_vio_writes [OF _ lo hi' q(1,2) q256]) simp
  with q show "\<exists>q. double_div (double_sub (Fin x) lit_0_8) lit_0_025 = Fin q \<and>
         0 \<le> q \<and> q < 107 \<and> \<bar>q - (x - 8 / 10) / (25 / 1000)\<bar> < 1 / 2 ^ 40 \<and>
         s1_pmic_set_vio hw (Fin x) tr =
           (Inr S1_SUCCESS,
            tr @ [TWIM_TX 0x48 [0x38, word_of_int \<lfloor>q\<rfloor>], TWIM_TX 0x48 [0x39, 0x0E]])"
    by (intro exI [of _ q]) simp
next
  show "s1_pmic_set_vio hw PInf tr = (Inr S1_INVALID_SETTING, tr)"
    by (simp add: s1_pmic_set_vio_def return_def)
next
  show "s1_pmic_set_vio hw NInf tr = (Inr S1_INVALID_SETTING, tr)"
    by (simp add: s1_pmic_set_vio_def return_def)
qed

text \<open>
  C5 says that \<^verbatim>\<open>s1_pmic_set_vaux\<close> writes the setting \<open>round((v - 0.8) / 0.05)\<close>. At 1.0 V
  the quotient is exactly 4, so rounding, truncation and the floor all give 4, and on a bus
  without faults the call succeeds with the two writes in the order the claim gives. But
  the setting written is 3: the binary64 subtraction \<^verbatim>\<open>1.0 - 0.8\<close> gives a value just below
  0.2, the binary64 quotient is just below 4, and the conversion to \<^verbatim>\<open>uint8_t\<close> truncates.
\<close>

theorem set_vaux_setting_at_1_0:
  "is_binary32 1 \<and> (8 / 10 :: rat) \<le> 1 \<and> (1 :: rat) \<le> 55 / 10 \<and>
   bus_ok (hw_reply [0x00]) \<and>
   (1 - 8 / 10) / (5 / 100) = (4 :: rat) \<and>
   c_round ((1 - 8 / 10) / (5 / 100)) = 4 \<and>
   double_div (double_sub (Fin 1) lit_0_8) lit_0_05 = Fin (4503599627370495 / 1125899906842624) \<and>
   s1_pmic_set_vaux (hw_reply [0x00]) (Fin 1) [] =
     (Inr S1_SUCCESS, [TWIM_TX 0x48 [0x2D, 3], TWIM_TX 0x48 [0x2E, 0x0E]])"
proof -
  have "s1_pmic_set_vaux (hw_reply [0x00]) (Fin 1) [] =
     (Inr S1_SUCCESS,
      [] @ (if lit_3_46 < 1 then [TWIM_TXRX 0x48 [0x39] 1] else []) @
           [TWIM_TX 0x48 [0x2D, word_of_int \<lfloor>4503599627370495 / 1125899906842624 :: rat\<rfloor>],
            TWIM_TX 0x48 [0x2E, 0x0E]])"
    by (rule set_vaux_writes [OF bus_ok_hw_reply _ _ vaux_setting_1])
       (simp_all add: lit_0_8_def lit_3_46_def)
  then have "s1_pmic_set_vaux (hw_reply [0x00]) (Fin 1) [] =
     (Inr S1_SUCCESS, [TWIM_TX 0x48 [0x2D, 3], TWIM_TX 0x48 [0x2E, 0x0E]])"
    by (simp add: lit_3_46_def floor_rat_numeral)
  with c_round_4 vaux_setting_1 show ?thesis
    by (simp add: is_binary32_examples bus_ok_hw_reply)
qed

text \<open>
  C6 says that \<^verbatim>\<open>s1_pmic_set_vio\<close> writes the setting \<open>round((v - 0.8) / 0.025)\<close> for a
  voltage in range. At 1.0 V the quotient is exactly 8, so rounding, truncation and the
  floor all give 8, and on a bus without faults the call succeeds with the two writes in the
  order the claim gives. But the setting written is 7, for the same reason as in
  \<^verbatim>\<open>s1_pmic_set_vaux\<close>: the binary64 quotient is just below 8 and the conversion truncates.
\<close>

theorem set_vio_setting_at_1_0:
  "is_binary32 1 \<and> (8 / 10 :: rat) \<le> 1 \<and> (1 :: rat) \<le> 346 / 100 \<and>
   bus_ok (hw_reply []) \<and>
   (1 - 8 / 10) / (25 / 1000) = (8 :: rat) \<and>
   c_round ((1 - 8 / 10) / (25 / 1000)) = 8 \<and>
   double_div (double_sub (Fin 1) lit_0_8) lit_0_025 = Fin (4503599627370495 / 562949953421312) \<and>
   s1_pmic_set_vio (hw_reply []) (Fin 1) [] =
     (Inr S1_SUCCESS, [TWIM_TX 0x48 [0x38, 7], TWIM_TX 0x48 [0x39, 0x0E]])"
proof -
  have "s1_pmic_set_vio (hw_reply []) (Fin 1) [] =
     (Inr S1_SUCCESS,
      [] @ [TWIM_TX 0x48 [0x38, word_of_int \<lfloor>4503599627370495 / 562949953421312 :: rat\<rfloor>],
            TWIM_TX 0x48 [0x39, 0x0E]])"
    by (rule set_vio_writes [OF bus_ok_hw_reply _ _ vio_setting_1])
       (simp_all add: lit_0_8_def lit_3_46_def)
  then have "s1_pmic_set_vio (hw_reply []) (Fin 1) [] =
     (Inr S1_SUCCESS, [TWIM_TX 0x48 [0x38, 7], TWIM_TX 0x48 [0x39, 0x0E]])"
    by (simp add: floor_rat_numeral)
  with c_round_8 vio_setting_1 show ?thesis
    by (simp add: is_binary32_examples bus_ok_hw_reply)
qed

end
